theory Spec2Isabelle
  imports Main
begin

section \<open>Python strings\<close>

text \<open>
  A Python \<open>str\<close> is modelled as a \<open>string\<close>: a list of characters, each standing for
  one code point below 256.  The functions of this section are the methods of \<open>str\<close>
  that the two scripts call.
\<close>

definition backslash :: char where
  "backslash = CHR 0x5C"

definition newline :: char where
  "newline = CHR 0x0A"

definition startswith :: "string \<Rightarrow> string \<Rightarrow> bool" where
  "startswith s p = (take (length p) s = p)"

definition endswith :: "string \<Rightarrow> string \<Rightarrow> bool" where
  "endswith s p = (length p \<le> length s \<and> drop (length s - length p) s = p)"

text \<open>\<open>s.split(sep)\<close> for a separator of one character: never the empty list.\<close>

fun str_split :: "char \<Rightarrow> string \<Rightarrow> string list" where
  "str_split sep [] = [[]]"
| "str_split sep (c # cs) =
     (if c = sep then [] # str_split sep cs
      else (case str_split sep cs of
              [] \<Rightarrow> [[c]]
            | w # ws \<Rightarrow> (c # w) # ws))"

text \<open>\<open>sep.join(xs)\<close>.\<close>

fun str_join :: "string \<Rightarrow> string list \<Rightarrow> string" where
  "str_join sep [] = []"
| "str_join sep [x] = x"
| "str_join sep (x # y # ys) = x @ sep @ str_join sep (y # ys)"

text \<open>
  \<open>s.replace(old, new)\<close>: the occurrences of \<open>old\<close> are found from the left and do
  not overlap; an empty \<open>old\<close> matches before every character and at the end.
\<close>

function str_replace :: "string \<Rightarrow> string \<Rightarrow> string \<Rightarrow> string" where
  "str_replace old new [] = (if old = [] then new else [])"
| "str_replace old new (c # cs) =
     (if old = [] then new @ c # str_replace old new cs
      else if startswith (c # cs) old
        then new @ str_replace old new (drop (length old) (c # cs))
      else c # str_replace old new cs)"
  by pat_completeness auto
termination
  by (relation "measure (\<lambda>(old, new, s). length s)") auto

text \<open>\<open>s.count(c)\<close> for a string \<open>c\<close> of one character.\<close>

definition str_count :: "char \<Rightarrow> string \<Rightarrow> nat" where
  "str_count c s = length (filter (\<lambda>x. x = c) s)"

text \<open>\<open>c.isspace()\<close> on the code points below 256, and \<open>s.strip()\<close>.\<close>

definition isspace :: "char \<Rightarrow> bool" where
  "isspace c =
     (let n = (of_char c :: nat)
      in (9 \<le> n \<and> n \<le> 13) \<or> (28 \<le> n \<and> n \<le> 32) \<or> n = 133 \<or> n = 160)"

definition str_strip :: "string \<Rightarrow> string" where
  "str_strip s = rev (dropWhile isspace (rev (dropWhile isspace s)))"

section \<open>The \<open>re\<close> module\<close>

text \<open>
  \<open>re.escape\<close> (Python 3.7 and later) puts a backslash before each of the characters
  \<^verbatim>\<open>()[]{}?*+-|^$\.&~#\<close>, the space and the five control characters tab, line feed,
  vertical tab, form feed and carriage return, and leaves every other character alone.
\<close>

definition special_chars :: "char list" where
  "special_chars =
     ''()[]{}?*+-|^$.&~# '' @
     [backslash, CHR 0x09, CHR 0x0A, CHR 0x0B, CHR 0x0C, CHR 0x0D]"

fun re_escape :: "string \<Rightarrow> string" where
  "re_escape [] = []"
| "re_escape (c # cs) =
     (if c \<in> set special_chars then backslash # c # re_escape cs
      else c # re_escape cs)"

text \<open>
  The expressions that \<open>matches_gitignore_pattern\<close> compiles use a small part of the
  syntax of \<open>re\<close>: the anchors \<open>^\<close> and \<open>$\<close>, the dot, the dot under a star, a
  backslash before a character that is neither a letter nor a digit, and characters that
  stand for themselves.  \<open>re_parse\<close> reads exactly that part and answers \<open>None\<close> on
  anything else (groups, classes, other quantifiers, escapes of letters and digits).
\<close>

datatype rx = Bol | Eol | Dot | DotStar | Lit char

definition isalnum_ascii :: "char \<Rightarrow> bool" where
  "isalnum_ascii c =
     (let n = (of_char c :: nat)
      in (48 \<le> n \<and> n \<le> 57) \<or> (65 \<le> n \<and> n \<le> 90) \<or> (97 \<le> n \<and> n \<le> 122))"

definition meta_chars :: "char list" where
  "meta_chars = ''()[]{}?*+|''"

fun re_parse :: "string \<Rightarrow> rx list option" where
  "re_parse [] = Some []"
| "re_parse [c] =
     (if c = CHR ''^'' then Some [Bol]
      else if c = CHR ''$'' then Some [Eol]
      else if c = CHR ''.'' then Some [Dot]
      else if c = backslash \<or> c \<in> set meta_chars then None
      else Some [Lit c])"
| "re_parse (c # d # cs) =
     (if c = CHR ''^'' then map_option ((#) Bol) (re_parse (d # cs))
      else if c = CHR ''$'' then map_option ((#) Eol) (re_parse (d # cs))
      else if c = CHR ''.'' then
        (if d = CHR ''*'' then map_option ((#) DotStar) (re_parse cs)
         else map_option ((#) Dot) (re_parse (d # cs)))
      else if c = backslash then
        (if isalnum_ascii d then None else map_option ((#) (Lit d)) (re_parse cs))
      else if c \<in> set meta_chars then None
      else map_option ((#) (Lit c)) (re_parse (d # cs)))"

text \<open>
  \<open>rx_match at_start r s\<close>: the expression \<open>r\<close> matches a prefix of \<open>s\<close>, where
  \<open>at_start\<close> says that no character of the subject has been consumed yet.  The dot
  takes any character but the line feed; \<open>$\<close> holds at the end of the subject and
  just before a line feed that ends it.
\<close>

fun rx_match :: "bool \<Rightarrow> rx list \<Rightarrow> string \<Rightarrow> bool" where
  "rx_match b [] s = True"
| "rx_match b (Bol # r) s = (b \<and> rx_match b r s)"
| "rx_match b (Eol # r) s = ((s = [] \<or> s = [newline]) \<and> rx_match b r s)"
| "rx_match b (Dot # r) [] = False"
| "rx_match b (Dot # r) (x # xs) = (x \<noteq> newline \<and> rx_match False r xs)"
| "rx_match b (Lit c # r) [] = False"
| "rx_match b (Lit c # r) (x # xs) = (x = c \<and> rx_match False r xs)"
| "rx_match b (DotStar # r) [] = rx_match b r []"
| "rx_match b (DotStar # r) (x # xs) =
     (rx_match b r (x # xs) \<or> (x \<noteq> newline \<and> rx_match False (DotStar # r) xs))"

text \<open>\<open>re.match(pattern, s)\<close> as a truth value; \<open>None\<close> outside the modelled syntax.\<close>

definition re_match :: "string \<Rightarrow> string \<Rightarrow> bool option" where
  "re_match pattern s = map_option (\<lambda>r. rx_match True r s) (re_parse pattern)"

section \<open>The \<open>os.path\<close> module\<close>

datatype py_error =
  ValueError string | OSError string | re_error string | UnicodeEncodeError string

text \<open>
  The scripts reach the platform through \<open>os.sep\<close>, \<open>os.path.join\<close>,
  \<open>os.path.basename\<close> and \<open>os.path.relpath\<close>, and through \<open>print\<close>.  They are
  gathered in a record, so that a statement can be made for every platform;
  \<open>posixpath\<close> below is the POSIX one.  \<open>stdout_encodes\<close> tells which characters
  outside ASCII the encoding of standard output has.
\<close>

record os_path =
  sep :: char
  join :: "string \<Rightarrow> string \<Rightarrow> string"
  basename :: "string \<Rightarrow> string"
  relpath :: "string \<Rightarrow> string \<Rightarrow> py_error + string"
  stdout_encodes :: "char \<Rightarrow> bool"

text \<open>
  \<open>print(text)\<close>: the text is encoded for standard output, whose encoding extends
  ASCII; a character that the encoding does not have raises \<open>UnicodeEncodeError\<close>, and
  nothing is printed.  \<open>None\<close> when the text is printed.
\<close>

definition isascii :: "char \<Rightarrow> bool" where
  "isascii c = ((of_char c :: nat) < 128)"

definition py_print :: "os_path \<Rightarrow> string \<Rightarrow> py_error option" where
  "py_print os text =
     (if list_all (\<lambda>c. isascii c \<or> stdout_encodes os c) text then None
      else Some (UnicodeEncodeError text))"

definition posix_join :: "string \<Rightarrow> string \<Rightarrow> string" where
  "posix_join a b =
     (if startswith b ''/'' then b
      else if a = [] \<or> endswith a ''/'' then a @ b
      else a @ ''/'' @ b)"

text \<open>\<open>p[p.rfind('/') + 1:]\<close>: what follows the last slash.\<close>

definition posix_basename :: "string \<Rightarrow> string" where
  "posix_basename p = rev (takeWhile (\<lambda>c. c \<noteq> CHR ''/'') (rev p))"

text \<open>The loop of \<open>normpath\<close> over the components, \<open>new_comps\<close> being the stack.\<close>

fun normpath_comps :: "bool \<Rightarrow> string list \<Rightarrow> string list \<Rightarrow> string list" where
  "normpath_comps initial_slashes new_comps [] = new_comps"
| "normpath_comps initial_slashes new_comps (component # comps) =
     (if component = [] \<or> component = ''.'' then normpath_comps initial_slashes new_comps comps
      else if component \<noteq> ''..'' \<or> (\<not> initial_slashes \<and> new_comps = [])
              \<or> (new_comps \<noteq> [] \<and> last new_comps = ''..'')
        then normpath_comps initial_slashes (new_comps @ [component]) comps
      else if new_comps \<noteq> [] then normpath_comps initial_slashes (butlast new_comps) comps
      else normpath_comps initial_slashes new_comps comps)"

definition posix_normpath :: "string \<Rightarrow> string" where
  "posix_normpath path =
     (if path = [] then ''.''
      else
        let initial_slashes =
              (if startswith path ''/'' then
                 (if startswith path ''//'' \<and> \<not> startswith path ''///'' then 2 else 1)
               else (0::nat));
            comps = normpath_comps (initial_slashes \<noteq> 0) [] (str_split CHR ''/'' path);
            path' = replicate initial_slashes CHR ''/'' @ str_join ''/'' comps
        in if path' = [] then ''.'' else path')"

definition posix_abspath :: "string \<Rightarrow> string \<Rightarrow> string" where
  "posix_abspath cwd path =
     posix_normpath (if startswith path ''/'' then path else posix_join cwd path)"

text \<open>\<open>commonprefix\<close> of two lists of components.\<close>

fun commonprefix :: "string list \<Rightarrow> string list \<Rightarrow> string list" where
  "commonprefix (x # xs) (y # ys) = (if x = y then x # commonprefix xs ys else [])"
| "commonprefix _ _ = []"

definition posix_relpath :: "string \<Rightarrow> string \<Rightarrow> string \<Rightarrow> py_error + string" where
  "posix_relpath cwd path start =
     (if path = [] then Inl (ValueError ''no path specified'')
      else
        let start_list = filter (\<lambda>x. x \<noteq> []) (str_split CHR ''/'' (posix_abspath cwd start));
            path_list = filter (\<lambda>x. x \<noteq> []) (str_split CHR ''/'' (posix_abspath cwd path));
            i = length (commonprefix start_list path_list);
            rel_list = replicate (length start_list - i) ''..'' @ drop i path_list
        in if rel_list = [] then Inr ''.''
           else Inr (foldl posix_join (hd rel_list) (tl rel_list)))"

text \<open>
  The module on a POSIX host whose current directory is \<open>cwd\<close> and whose standard
  output encodes every character (UTF-8).
\<close>

definition posixpath :: "string \<Rightarrow> os_path" where
  "posixpath cwd =
     \<lparr> sep = CHR ''/'', join = posix_join, basename = posix_basename,
       relpath = posix_relpath cwd, stdout_encodes = (\<lambda>c. True) \<rparr>"

section \<open>The ignore-pattern matcher (\<open>scripts/project-structure.py\<close>)\<close>

type_synonym pattern = "string \<times> bool"

text \<open>
  The body of the loop of \<open>matches_gitignore_pattern\<close> up to the expression it compiles
  for one rule.
\<close>

definition regex_of_pattern :: "string \<Rightarrow> string" where
  "regex_of_pattern pattern_str0 =
     (let is_dir_pattern = endswith pattern_str0 ''/'';
          pattern_str = (if is_dir_pattern then butlast pattern_str0 else pattern_str0);
          regex_pattern =
            str_replace [backslash, CHR ''?''] ''.''
              (str_replace [backslash, CHR ''*''] ''.*'' (re_escape pattern_str));
          regex_pattern =
            (if \<not> startswith pattern_str ''/'' then ''.*'' @ regex_pattern
             else drop 1 regex_pattern)
      in ''^'' @ regex_pattern @ ''$'')"

text \<open>
  One turn of the loop: \<open>matched_by_exclude\<close> after the rule \<open>(pattern_str, is_negation)\<close>.
  An expression that \<open>re\<close> would refuse, or that lies outside the modelled syntax, is an
  error.
\<close>

definition rule_step ::
  "string \<Rightarrow> string \<Rightarrow> bool \<Rightarrow> pattern \<Rightarrow> py_error + bool" where
  "rule_step relative_filepath base matched_by_exclude rule =
     (let regex_pattern = regex_of_pattern (fst rule)
      in case (re_match regex_pattern relative_filepath, re_match regex_pattern base) of
           (Some m1, Some m2) \<Rightarrow>
             Inr (if m1 \<or> m2 then (if snd rule then False else True)
                  else matched_by_exclude)
         | _ \<Rightarrow> Inl (re_error regex_pattern))"

fun rule_loop ::
  "string \<Rightarrow> string \<Rightarrow> bool \<Rightarrow> pattern list \<Rightarrow> py_error + bool" where
  "rule_loop relative_filepath base matched_by_exclude [] = Inr matched_by_exclude"
| "rule_loop relative_filepath base matched_by_exclude (rule # patterns) =
     (case rule_step relative_filepath base matched_by_exclude rule of
        Inl e \<Rightarrow> Inl e
      | Inr m \<Rightarrow> rule_loop relative_filepath base m patterns)"

definition matches_gitignore_pattern ::
  "os_path \<Rightarrow> string \<Rightarrow> pattern list \<Rightarrow> string \<Rightarrow> py_error + bool" where
  "matches_gitignore_pattern os filepath patterns root_dir =
     (if ''.git'' \<in> set (str_split (sep os) filepath) then Inr True
      else case relpath os filepath root_dir of
             Inl e \<Rightarrow> Inl e
           | Inr relative_filepath \<Rightarrow>
               rule_loop relative_filepath (basename os filepath) False patterns)"

section \<open>The file system\<close>

text \<open>
  What the scripts see of the file system.  \<open>stat\<close> gives the kind of a path that
  exists.  \<open>scandir\<close> gives the directory tree that \<open>os.walk\<close> finds under a top
  directory: for each directory its subdirectories, in the order of the listing, and its
  other entries; a subdirectory that is not walked into (a symbolic link, or a directory
  that cannot be listed) has no tree.  \<open>read_text\<close> and \<open>read_lines\<close> open a file for
  reading, \<open>open_for_write\<close> opens one for writing; each may fail with an exception.
\<close>

datatype file_kind = Directory | Other

datatype dtree = DTree (subdirs: "(string \<times> dtree option) list") (files: "string list")

record filesystem =
  stat :: "string \<Rightarrow> file_kind option"
  scandir :: "string \<Rightarrow> dtree option"
  read_text :: "string \<Rightarrow> py_error + string"
  read_lines :: "string \<Rightarrow> py_error + string list"
  open_for_write :: "string \<Rightarrow> py_error option"

definition path_exists :: "filesystem \<Rightarrow> string \<Rightarrow> bool" where
  "path_exists fs p = (stat fs p \<noteq> None)"

definition path_isdir :: "filesystem \<Rightarrow> string \<Rightarrow> bool" where
  "path_isdir fs p = (stat fs p = Some Directory)"

text \<open>\<open>str(e)\<close> of an exception.\<close>

fun str_of_error :: "py_error \<Rightarrow> string" where
  "str_of_error (ValueError m) = m"
| "str_of_error (OSError m) = m"
| "str_of_error (re_error m) = m"
| "str_of_error (UnicodeEncodeError m) = m"

text \<open>
  \<open>os.walk(top)\<close>, top down, when the caller leaves the lists alone: the triples
  \<open>(dirpath, dirnames, filenames)\<close> in the order they are produced.
\<close>

fun walk :: "os_path \<Rightarrow> string \<Rightarrow> dtree \<Rightarrow> (string \<times> string list \<times> string list) list" where
  "walk os top_dir (DTree subs nondirs) =
     (top_dir, map fst subs, nondirs) #
     concat (map (\<lambda>(dirname, t).
                    case t of None \<Rightarrow> [] | Some t' \<Rightarrow> walk os (join os top_dir dirname) t')
                 subs)"

definition os_walk ::
  "os_path \<Rightarrow> filesystem \<Rightarrow> string \<Rightarrow> (string \<times> string list \<times> string list) list" where
  "os_walk os fs top_dir = (case scandir fs top_dir of None \<Rightarrow> [] | Some t \<Rightarrow> walk os top_dir t)"

section \<open>Reading the rules (\<open>parse_gitignore\<close>)\<close>

fun parse_lines :: "string list \<Rightarrow> pattern list \<Rightarrow> pattern list" where
  "parse_lines [] patterns = patterns"
| "parse_lines (line0 # rest) patterns =
     (let line = str_strip line0
      in if line = [] \<or> startswith line ''#'' then parse_lines rest patterns
         else if startswith line ''!'' then parse_lines rest (patterns @ [(drop 1 line, True)])
         else parse_lines rest (patterns @ [(line, False)]))"

definition parse_gitignore :: "filesystem \<Rightarrow> string \<Rightarrow> py_error + pattern list" where
  "parse_gitignore fs gitignore_path =
     (if path_exists fs gitignore_path then
        (case read_lines fs gitignore_path of
           Inl e \<Rightarrow> Inl e
         | Inr ls \<Rightarrow> Inr (parse_lines ls []))
      else Inr [])"

section \<open>Tree mode (\<open>generate_project_structure_doc\<close>)\<close>

text \<open>
  What has been written to the output file, and the exception that ended the run, if
  one did.
\<close>

type_synonym doc_out = "string list \<times> py_error option"

definition seq_out :: "doc_out \<Rightarrow> doc_out \<Rightarrow> doc_out" where
  "seq_out a b = (case snd a of Some e \<Rightarrow> a | None \<Rightarrow> (fst a @ fst b, snd b))"

definition seq_all :: "doc_out list \<Rightarrow> doc_out" where
  "seq_all outs = foldr seq_out outs ([], None)"

text \<open>
  The comprehension that prunes \<open>dirnames\<close>: the subdirectories that the matcher does
  not exclude, each with its tree.
\<close>

fun filter_dirs ::
  "os_path \<Rightarrow> pattern list \<Rightarrow> string \<Rightarrow> string \<Rightarrow> (string \<times> 'a) list
     \<Rightarrow> py_error + (string \<times> 'a) list" where
  "filter_dirs os patterns root_dir dirpath [] = Inr []"
| "filter_dirs os patterns root_dir dirpath (d # ds) =
     (case matches_gitignore_pattern os (join os dirpath (fst d)) patterns root_dir of
        Inl e \<Rightarrow> Inl e
      | Inr m \<Rightarrow>
          (case filter_dirs os patterns root_dir dirpath ds of
             Inl e \<Rightarrow> Inl e
           | Inr kept \<Rightarrow> Inr (if m then kept else d # kept)))"

text \<open>The loop over \<open>filenames\<close>.\<close>

fun file_lines ::
  "os_path \<Rightarrow> pattern list \<Rightarrow> string \<Rightarrow> string \<Rightarrow> string \<Rightarrow> string list \<Rightarrow> doc_out" where
  "file_lines os patterns root_dir dirpath subindent [] = ([], None)"
| "file_lines os patterns root_dir dirpath subindent (filename # filenames) =
     (case matches_gitignore_pattern os (join os dirpath filename) patterns root_dir of
        Inl e \<Rightarrow> ([], Some e)
      | Inr m \<Rightarrow>
          seq_out ((if m then [] else [subindent @ filename @ [newline]]), None)
                  (file_lines os patterns root_dir dirpath subindent filenames))"

text \<open>The body of the loop over the walk, after the pruning.\<close>

definition dir_lines ::
  "os_path \<Rightarrow> pattern list \<Rightarrow> string \<Rightarrow> string \<Rightarrow> string list \<Rightarrow> doc_out" where
  "dir_lines os patterns root_dir dirpath filenames =
     (let level = str_count (sep os) (str_replace root_dir [] dirpath);
          indent = replicate (4 * level) CHR '' '';
          subindent = replicate (4 * (level + 1)) CHR '' ''
      in case (if dirpath \<noteq> root_dir
               then matches_gitignore_pattern os dirpath patterns root_dir
               else Inr False) of
           Inl e \<Rightarrow> ([], Some e)
         | Inr skip \<Rightarrow>
             if skip then ([], None)
             else seq_out ([indent @ basename os dirpath @ ''/'' @ [newline]], None)
                          (file_lines os patterns root_dir dirpath subindent filenames))"

text \<open>
  The walk with the loop body run at each directory: the names pruned from \<open>dirnames\<close>
  are not walked into.
\<close>

function walk_doc ::
  "os_path \<Rightarrow> pattern list \<Rightarrow> string \<Rightarrow> string \<Rightarrow> dtree \<Rightarrow> doc_out" where
  "walk_doc os patterns root_dir dirpath (DTree subs filenames) =
     (case filter_dirs os patterns root_dir dirpath subs of
        Inl e \<Rightarrow> ([], Some e)
      | Inr dirnames \<Rightarrow>
          seq_out (dir_lines os patterns root_dir dirpath filenames)
            (seq_all (map (\<lambda>(dirname, t).
                             case t of
                               None \<Rightarrow> ([], None)
                             | Some t' \<Rightarrow>
                                 walk_doc os patterns root_dir (join os dirpath dirname) t')
                          dirnames)))"
  by pat_completeness auto
termination
proof (relation "measure (\<lambda>(os, patterns, root_dir, dirpath, t). size t)")
  show "wf (measure (\<lambda>(os, patterns, root_dir, dirpath, t). size t))" by simp
next
  fix os :: os_path and patterns :: "pattern list" and root_dir dirpath :: string
    and subs dirnames :: "(string \<times> dtree option) list" and filenames :: "string list"
    and x :: "string \<times> dtree option" and dirname :: string and t :: "dtree option"
    and t' :: dtree
  assume kept: "filter_dirs os patterns root_dir dirpath subs = Inr dirnames"
    and mem: "x \<in> set dirnames" and x: "(dirname, t) = x" and t: "t = Some t'"
  have subset: "set ks \<subseteq> set ds"
    if "filter_dirs os patterns root_dir dirpath ds = Inr ks"
    for ds ks :: "(string \<times> dtree option) list"
    using that by (induction ds arbitrary: ks) (auto split: sum.splits if_splits)
  from kept mem x t have "(dirname, Some t') \<in> set subs"
    using subset by fastforce
  then have "size t' < Suc (size_list (size_prod (\<lambda>_. 0) (size_option size)) subs)"
    by (induction subs) auto
  then show "((os, patterns, root_dir, join os dirpath dirname, t'),
              (os, patterns, root_dir, dirpath, DTree subs filenames))
             \<in> measure (\<lambda>(os, patterns, root_dir, dirpath, t). size t)"
    by simp
qed

definition generate_project_structure_doc ::
  "os_path \<Rightarrow> filesystem \<Rightarrow> string \<Rightarrow> string \<Rightarrow> doc_out" where
  "generate_project_structure_doc os fs root_dir output_file =
     (let gitignore_path = join os root_dir ''.gitignore''
      in case parse_gitignore fs gitignore_path of
           Inl e \<Rightarrow> ([], Some e)
         | Inr gitignore_patterns \<Rightarrow>
             (case open_for_write fs output_file of
                Some e \<Rightarrow> ([], Some e)
              | None \<Rightarrow>
                  seq_out ([''Project Structure for: '' @ root_dir @ [newline],
                            replicate 30 CHR ''='' @ [newline, newline]], None)
                    (case scandir fs root_dir of
                       None \<Rightarrow> ([], None)
                     | Some t \<Rightarrow> walk_doc os gitignore_patterns root_dir root_dir t)))"

section \<open>Concatenation mode (\<open>scripts/create-ai-transfer-doc.py\<close>)\<close>

text \<open>
  The state of a run of \<open>concatenate_typescript_files\<close>: the list
  \<open>concatenated_content\<close>, the lines printed, and the files opened for reading, in
  the order in which they were opened.
\<close>

record run_state =
  concatenated_content :: "string list"
  printed :: "string list"
  opened :: "string list"

definition initial_state :: run_state where
  "initial_state = \<lparr> concatenated_content = [], printed = [], opened = [] \<rparr>"

text \<open>
  The body of the inner loop for one \<open>file_name\<close> of the directory \<open>root\<close>.  An
  exception of \<open>os.path.relpath\<close> is outside the \<open>try\<close>, and one of the \<open>print\<close> of
  the handler is inside the handler, where nothing catches it: either leaves the
  function, \<open>Inl\<close>, with the state reached.
\<close>

definition visit_file ::
  "os_path \<Rightarrow> filesystem \<Rightarrow> string \<Rightarrow> string \<Rightarrow> run_state \<Rightarrow> string
     \<Rightarrow> (py_error \<times> run_state) + run_state" where
  "visit_file os fs directory_path root st file_name =
     (if endswith file_name ''.ts'' then
        (let file_path = join os root file_name
         in case relpath os file_path directory_path of
              Inl e \<Rightarrow> Inl (e, st)
            | Inr relative_path \<Rightarrow>
                (let normalized_path = str_replace [sep os] ''/'' relative_path;
                     st = st\<lparr>opened := opened st @ [file_path]\<rparr>
                 in case read_text fs file_path of
                      Inr content \<Rightarrow>
                        Inr (st\<lparr>concatenated_content := concatenated_content st @
                               [''// !!-- START OF FILE --!!'',
                                ''// src/'' @ normalized_path @ [newline] @ content @ [newline]]\<rparr>)
                    | Inl e \<Rightarrow>
                        (let st = st\<lparr>concatenated_content := concatenated_content st @
                                     [''// Error reading '' @ normalized_path @ '': '' @
                                      str_of_error e @ [newline]]\<rparr>;
                             message = ''Error reading '' @ normalized_path @ '': '' @
                                       str_of_error e
                         in case py_print os message of
                              Some print_error \<Rightarrow> Inl (print_error, st)
                            | None \<Rightarrow> Inr (st\<lparr>printed := printed st @ [message]\<rparr>))))
      else Inr st)"

text \<open>A \<open>for\<close> loop whose body may raise: the first exception ends it.\<close>

fun for_each ::
  "('s \<Rightarrow> 'a \<Rightarrow> ('e \<times> 's) + 's) \<Rightarrow> 'a list \<Rightarrow> 's \<Rightarrow> ('e \<times> 's) + 's" where
  "for_each body [] st = Inr st"
| "for_each body (x # xs) st =
     (case body st x of Inl e \<Rightarrow> Inl e | Inr st' \<Rightarrow> for_each body xs st')"

definition concatenate_typescript_files ::
  "os_path \<Rightarrow> filesystem \<Rightarrow> string \<Rightarrow> (py_error \<times> run_state) + (string \<times> run_state)" where
  "concatenate_typescript_files os fs directory_path =
     (if \<not> path_isdir fs directory_path then
        Inr (''Error: Directory '' @ [CHR 0x27] @ directory_path @ [CHR 0x27] @ '' not found.'',
             initial_state)
      else
        (case for_each
                (\<lambda>st (root, dirs, file_names).
                   for_each (visit_file os fs directory_path root) file_names st)
                (os_walk os fs directory_path) initial_state of
           Inl e \<Rightarrow> Inl e
         | Inr st \<Rightarrow> Inr (str_join [newline] (concatenated_content st), st)))"

text \<open>
  The main program: what it prints, the files it writes with their contents, and the
  exception that ends it, if one does.  \<open>say\<close> is one \<open>print\<close> of the main program.
\<close>

record main_result =
  stdout :: "string list"
  written :: "(string \<times> string) list"
  raised :: "py_error option"

definition say :: "os_path \<Rightarrow> string \<Rightarrow> main_result \<Rightarrow> main_result" where
  "say os text r =
     (case py_print os text of
        None \<Rightarrow> r\<lparr>stdout := stdout r @ [text]\<rparr>
      | Some e \<Rightarrow> r\<lparr>raised := Some e\<rparr>)"

definition main :: "os_path \<Rightarrow> filesystem \<Rightarrow> main_result" where
  "main os fs =
     (let ts_source_directory = ''src'';
          output_file_name = ''full_project_source.ts'';
          r = say os (''Concatenating TypeScript files from: '' @ ts_source_directory)
                \<lparr> stdout = [], written = [], raised = None \<rparr>
      in if raised r \<noteq> None then r
         else
           (case concatenate_typescript_files os fs ts_source_directory of
              Inl (e, st) \<Rightarrow> r\<lparr>stdout := stdout r @ printed st, raised := Some e\<rparr>
            | Inr (concatenated_ts_code, st) \<Rightarrow>
                (let r = r\<lparr>stdout := stdout r @ printed st\<rparr>;
                     failure = (\<lambda>e. ''Error writing to output file '' @ [CHR 0x27] @
                                    output_file_name @ [CHR 0x27] @ '': '' @ str_of_error e);
                     success = ''Successfully concatenated files to '' @ [CHR 0x27] @
                               output_file_name @ [CHR 0x27] @ ''.''
                 in if startswith concatenated_ts_code ''Error:'' then
                      say os concatenated_ts_code r
                    else
                      (case open_for_write fs output_file_name of
                         Some e \<Rightarrow> say os (failure e) r
                       | None \<Rightarrow>
                           (let r = r\<lparr>written := [(output_file_name, concatenated_ts_code)]\<rparr>
                            in case py_print os success of
                                 None \<Rightarrow> r\<lparr>stdout := stdout r @ [success]\<rparr>
                               | Some e \<Rightarrow> say os (failure e) r)))))"

section \<open>The compiled expressions\<close>

text \<open>
  What the two replacements make of an escaped pattern, character by character:
  \<open>esc_star\<close> after the first, \<open>glob_regex\<close> after the second; \<open>glob_rx\<close> is the
  same expression once parsed, and \<open>compiled\<close> the whole expression of a rule.
\<close>

fun esc_star :: "string \<Rightarrow> string" where
  "esc_star [] = []"
| "esc_star (c # cs) =
     (if c = CHR ''*'' then ''.*'' @ esc_star cs
      else if c \<in> set special_chars then backslash # c # esc_star cs
      else c # esc_star cs)"

fun glob_regex :: "string \<Rightarrow> string" where
  "glob_regex [] = []"
| "glob_regex (c # cs) =
     (if c = CHR ''*'' then ''.*'' @ glob_regex cs
      else if c = CHR ''?'' then ''.'' @ glob_regex cs
      else if c \<in> set special_chars then backslash # c # glob_regex cs
      else c # glob_regex cs)"

fun glob_rx :: "string \<Rightarrow> rx list" where
  "glob_rx [] = []"
| "glob_rx (c # cs) =
     (if c = CHR ''*'' then DotStar else if c = CHR ''?'' then Dot else Lit c) # glob_rx cs"

definition compiled :: "string \<Rightarrow> rx list" where
  "compiled pattern_str0 =
     (let pattern_str = (if endswith pattern_str0 ''/'' then butlast pattern_str0 else pattern_str0)
      in if startswith pattern_str ''/'' then Bol # glob_rx (drop 1 pattern_str) @ [Eol]
         else Bol # DotStar # glob_rx pattern_str @ [Eol])"

text \<open>
  The test of one rule against a path: the rule's expression matches the path relative
  to the root or the bare name.
\<close>

definition rule_matches :: "string \<Rightarrow> string \<Rightarrow> string \<Rightarrow> bool" where
  "rule_matches pattern_str relative_filepath base =
     (re_match (regex_of_pattern pattern_str) relative_filepath = Some True \<or>
      re_match (regex_of_pattern pattern_str) base = Some True)"

section \<open>What the claims speak of\<close>

text \<open>
  The lines of a rules file that give a rule, once stripped, and the rule that such a
  line gives.
\<close>

definition kept_line :: "string \<Rightarrow> bool" where
  "kept_line line = (line \<noteq> [] \<and> \<not> startswith line ''#'')"

definition entry_of :: "string \<Rightarrow> pattern" where
  "entry_of line = (if startswith line ''!'' then (drop 1 line, True) else (line, False))"

text \<open>
  The \<open>.ts\<close> files of a traversal, in its order, each by the path it is opened with;
  and what one such file adds to \<open>concatenated_content\<close>: the marker and the comment
  with its content when it can be read, the comment with the reason when it cannot.
\<close>

definition ts_paths :: "os_path \<Rightarrow> filesystem \<Rightarrow> string \<Rightarrow> string list" where
  "ts_paths os fs directory_path =
     concat (map (\<lambda>(root, dirs, file_names).
                    map (join os root) (filter (\<lambda>file_name. endswith file_name ''.ts'') file_names))
                 (os_walk os fs directory_path))"





text \<open>
  Two small file systems for the examples.  \<open>project_with_rules ls\<close> is a project in the
  current directory whose \<open>.gitignore\<close> has the lines \<open>ls\<close>; \<open>sample_project\<close> has a
  source directory \<open>src\<close> one of whose files cannot be read.
\<close>

definition project_with_rules :: "string list \<Rightarrow> filesystem" where
  "project_with_rules ls =
     \<lparr> stat = (\<lambda>p. if p = ''./.gitignore'' then Some Other
                    else if p = ''.'' then Some Directory else None),
       scandir = (\<lambda>p. if p = ''.''
                       then Some (DTree [(''src'', Some (DTree [] [''app'', ''.cache'']))]
                                        [''.env'', ''.gitignore'', ''Makefile''])
                       else None),
       read_text = (\<lambda>p. Inl (OSError ''Permission denied'')),
       read_lines = (\<lambda>p. if p = ''./.gitignore'' then Inr ls
                          else Inl (OSError ''No such file or directory'')),
       open_for_write = (\<lambda>p. None) \<rparr>"

definition sample_project :: filesystem where
  "sample_project =
     \<lparr> stat = (\<lambda>p. if p = ''src'' then Some Directory else None),
       scandir = (\<lambda>p. if p = ''src''
                       then Some (DTree [(''a'', Some (DTree [] [''x.ts'', ''y.txt'']))]
                                        [''broken.ts'', ''main.ts'', ''notes.txt''])
                       else None),
       read_text = (\<lambda>p. if p = ''src/broken.ts'' then Inl (OSError ''Permission denied'')
                         else Inr ''export {};''),
       read_lines = (\<lambda>p. Inl (OSError ''No such file or directory'')),
       open_for_write = (\<lambda>p. None) \<rparr>"



section \<open>The expression of a rule always parses\<close>

lemma str_replace_two:
  "str_replace [x, y] new (a # R) =
     (if a = x \<and> R \<noteq> [] \<and> hd R = y then new @ str_replace [x, y] new (tl R)
      else a # str_replace [x, y] new R)"
  by (cases R) (auto simp: startswith_def)

lemma special_not_plain:
  "backslash \<in> set special_chars" "CHR ''*'' \<in> set special_chars"
  "CHR ''?'' \<in> set special_chars" "CHR ''.'' \<in> set special_chars"
  by (simp_all add: special_chars_def)

lemma re_escape_head: "re_escape cs \<noteq> [] \<Longrightarrow> hd (re_escape cs) \<notin> {CHR ''*'', CHR ''?''}"
  by (cases cs) (auto simp: special_chars_def backslash_def)

lemma replace_star: "str_replace [backslash, CHR ''*''] ''.*'' (re_escape p) = esc_star p"
proof (induction p)
  case Nil
  show ?case by simp
next
  case (Cons c cs)
  have nb: "c \<notin> set special_chars \<Longrightarrow> c \<noteq> backslash"
    using special_not_plain(1) by blast
  from re_escape_head[of cs]
  have hd: "re_escape cs \<noteq> [] \<Longrightarrow> hd (re_escape cs) \<noteq> CHR ''*''" by simp
  show ?case
    using Cons nb hd
    by (auto simp: str_replace_two special_not_plain simp del: str_replace.simps)
qed

lemma esc_star_head: "esc_star cs \<noteq> [] \<Longrightarrow> hd (esc_star cs) \<noteq> CHR ''?''"
  by (cases cs) (auto simp: special_chars_def backslash_def)

lemma replace_question: "str_replace [backslash, CHR ''?''] ''.'' (esc_star p) = glob_regex p"
proof (induction p)
  case Nil
  show ?case by simp
next
  case (Cons c cs)
  have nb: "c \<notin> set special_chars \<Longrightarrow> c \<noteq> backslash"
    using special_not_plain(1) by blast
  have b: "backslash \<noteq> CHR ''.''" "backslash \<noteq> CHR ''*''" "backslash \<noteq> CHR ''?''"
    by (simp_all add: backslash_def)
  show ?case
    using Cons nb esc_star_head[of cs] b
    by (auto simp: str_replace_two special_not_plain simp del: str_replace.simps)
qed

lemma special_not_alnum: "c \<in> set special_chars \<Longrightarrow> \<not> isalnum_ascii c"
  by (auto simp: special_chars_def isalnum_ascii_def backslash_def)

lemma plain_char:
  assumes "c \<notin> set special_chars"
  shows "c \<noteq> CHR ''^''" "c \<noteq> CHR ''$''" "c \<noteq> CHR ''.''" "c \<noteq> backslash"
    "c \<notin> set meta_chars"
  using assms by (auto simp: special_chars_def meta_chars_def)

lemma re_parse_plain:
  "c \<notin> set special_chars \<Longrightarrow> R \<noteq> [] \<Longrightarrow>
   re_parse (c # R) = map_option ((#) (Lit c)) (re_parse R)"
  by (cases R) (simp_all add: plain_char)

lemma re_parse_escaped:
  "c \<in> set special_chars \<Longrightarrow>
   re_parse (backslash # c # R) = map_option ((#) (Lit c)) (re_parse R)"
  by (simp add: special_not_alnum backslash_def)

lemma re_parse_dotstar:
  "re_parse (CHR ''.'' # CHR ''*'' # R) = map_option ((#) DotStar) (re_parse R)"
  by simp

lemma re_parse_dot:
  "R \<noteq> [] \<Longrightarrow> hd R \<noteq> CHR ''*'' \<Longrightarrow>
   re_parse (CHR ''.'' # R) = map_option ((#) Dot) (re_parse R)"
  by (cases R) simp_all

lemma glob_regex_head: "hd (glob_regex cs @ ''$'') \<noteq> CHR ''*''"
  by (cases cs) (auto simp: special_chars_def backslash_def)

lemma re_parse_glob: "re_parse (glob_regex p @ ''$'') = Some (glob_rx p @ [Eol])"
proof (induction p)
  case Nil
  show ?case by simp
next
  case (Cons c cs)
  let ?R = "glob_regex cs @ ''$''"
  have ne: "?R \<noteq> []" by simp
  consider "c = CHR ''*''" | "c = CHR ''?''"
    | "c \<noteq> CHR ''*''" "c \<noteq> CHR ''?''" "c \<in> set special_chars"
    | "c \<notin> set special_chars"
    by blast
  then show ?case
  proof cases
    case 1
    then show ?thesis using Cons by (simp del: re_parse.simps add: re_parse_dotstar)
  next
    case 2
    then show ?thesis
      using Cons re_parse_dot[OF ne glob_regex_head] by (simp del: re_parse.simps)
  next
    case 3
    then show ?thesis
      using Cons re_parse_escaped[of c ?R] by (simp del: re_parse.simps)
  next
    case 4
    then have "c \<noteq> CHR ''*''" "c \<noteq> CHR ''?''"
      using special_not_plain by blast+
    with 4 show ?thesis
      using Cons re_parse_plain[OF 4 ne] by (simp del: re_parse.simps)
  qed
qed

lemma startswith_slash: "startswith p ''/'' \<longleftrightarrow> (\<exists>q. p = CHR ''/'' # q)"
  by (cases p) (auto simp: startswith_def)

lemma re_parse_regex_of_pattern: "re_parse (regex_of_pattern p) = Some (compiled p)"
proof -
  define q where "q = (if endswith p ''/'' then butlast p else p)"
  have slash: "CHR ''/'' \<notin> set special_chars" "CHR ''/'' \<noteq> CHR ''*''" "CHR ''/'' \<noteq> CHR ''?''"
    by (simp_all add: special_chars_def backslash_def)
  show ?thesis
  proof (cases "startswith q ''/''")
    case True
    then obtain r where r: "q = CHR ''/'' # r" using startswith_slash by blast
    have "regex_of_pattern p = CHR ''^'' # glob_regex r @ ''$''"
      using True r slash
      by (simp add: regex_of_pattern_def Let_def q_def[symmetric] replace_star replace_question)
    moreover have "compiled p = Bol # glob_rx r @ [Eol]"
      using True r by (simp add: compiled_def Let_def q_def[symmetric])
    ultimately show ?thesis
      using re_parse_glob[of r] by (cases "glob_regex r @ ''$''") simp_all
  next
    case False
    have "regex_of_pattern p = CHR ''^'' # CHR ''.'' # CHR ''*'' # glob_regex q @ ''$''"
      using False
      by (simp add: regex_of_pattern_def Let_def q_def[symmetric] replace_star replace_question)
    moreover have "compiled p = Bol # DotStar # glob_rx q @ [Eol]"
      using False by (simp add: compiled_def Let_def q_def[symmetric])
    ultimately show ?thesis
      using re_parse_glob[of q] by simp
  qed
qed

section \<open>The rule loop\<close>

lemma rule_matches_compiled:
  "rule_matches p rel base \<longleftrightarrow>
     rx_match True (compiled p) rel \<or> rx_match True (compiled p) base"
  by (simp add: rule_matches_def re_match_def re_parse_regex_of_pattern)

lemma rule_step_eq:
  "rule_step rel base m rule =
     Inr (if rule_matches (fst rule) rel base then \<not> snd rule else m)"
  by (simp add: rule_step_def rule_matches_def re_match_def re_parse_regex_of_pattern)

lemma find_snoc:
  "find P (xs @ [x]) =
     (case find P xs of None \<Rightarrow> (if P x then Some x else None) | Some y \<Rightarrow> Some y)"
  by (induction xs) auto

lemma rule_loop_eq:
  "rule_loop rel base m rules =
     Inr (case find (\<lambda>rule. rule_matches (fst rule) rel base) (rev rules) of
            None \<Rightarrow> m
          | Some rule \<Rightarrow> \<not> snd rule)"
proof (induction rules arbitrary: m)
  case Nil
  show ?case by simp
next
  case (Cons r rs)
  show ?case
    by (simp add: rule_step_eq Cons find_snoc split: option.splits)
qed

lemma find_rev_decided:
  assumes "P r" "\<forall>x \<in> set later. P x \<longrightarrow> Q x" "Q r"
  shows "\<exists>y. find P (rev (earlier @ r # later)) = Some y \<and> Q y"
  using assms
proof (induction later rule: rev_induct)
  case Nil
  then show ?case by (simp add: find_snoc split: option.splits)
next
  case (snoc x xs)
  then show ?case by (cases "P x") auto
qed

text \<open>
  Claim C1, as the code has it.  For a candidate path none of whose segments is
  \<open>.git\<close> and whose path relative to the root is computed without an exception,
  \<open>matches_gitignore_pattern\<close> runs through all the rules in the order of the list and
  returns the effect of the last rule that matches the path (its expression matches the
  root-relative path or the bare name): \<open>True\<close> when that rule is not a negation,
  \<open>False\<close> when it is one, and \<open>False\<close> when no rule matches.
\<close>

theorem last_matching_rule_wins:
  assumes "''.git'' \<notin> set (str_split (sep os) filepath)"
    and "relpath os filepath root_dir = Inr relative_filepath"
  shows "matches_gitignore_pattern os filepath patterns root_dir =
           Inr (case find (\<lambda>rule. rule_matches (fst rule) relative_filepath
                                   (basename os filepath)) (rev patterns) of
                  None \<Rightarrow> False
                | Some rule \<Rightarrow> \<not> snd rule)"
  using assms by (simp add: matches_gitignore_pattern_def rule_loop_eq)

text \<open>
  The three examples of the claim, on a POSIX host: under the rules \<open>*.log\<close>,
  \<open>!keep.log\<close> the file \<open>keep.log\<close> is not excluded and \<open>other.log\<close> is; under
  \<open>!keep.log\<close> alone \<open>keep.log\<close> is not excluded.
\<close>

theorem last_matching_rule_wins_witness:
  "''.git'' \<notin> set (str_split (sep (posixpath ''/w'')) ''./keep.log'') \<and>
   relpath (posixpath ''/w'') ''./keep.log'' ''.'' = Inr ''keep.log'' \<and>
   matches_gitignore_pattern (posixpath ''/w'') ''./keep.log''
     [(''*.log'', False), (''keep.log'', True)] ''.'' = Inr False \<and>
   matches_gitignore_pattern (posixpath ''/w'') ''./other.log''
     [(''*.log'', False), (''keep.log'', True)] ''.'' = Inr True \<and>
   matches_gitignore_pattern (posixpath ''/w'') ''./keep.log''
     [(''keep.log'', True)] ''.'' = Inr False"
proof -
  let ?os = "posixpath ''/w''"
  have g1: "''.git'' \<notin> set (str_split (sep ?os) ''./keep.log'')" by code_simp
  have r1: "relpath ?os ''./keep.log'' ''.'' = Inr ''keep.log''" by code_simp
  have g2: "''.git'' \<notin> set (str_split (sep ?os) ''./other.log'')" by code_simp
  have r2: "relpath ?os ''./other.log'' ''.'' = Inr ''other.log''" by code_simp
  have f1: "find (\<lambda>rule. rule_matches (fst rule) ''keep.log'' (basename ?os ''./keep.log''))
              (rev [(''*.log'', False), (''keep.log'', True)]) = Some (''keep.log'', True)"
    by code_simp
  have f2: "find (\<lambda>rule. rule_matches (fst rule) ''other.log'' (basename ?os ''./other.log''))
              (rev [(''*.log'', False), (''keep.log'', True)]) = Some (''*.log'', False)"
    by code_simp
  have f3: "find (\<lambda>rule. rule_matches (fst rule) ''keep.log'' (basename ?os ''./keep.log''))
              (rev [(''keep.log'', True)]) = Some (''keep.log'', True)"
    by code_simp
  have "matches_gitignore_pattern ?os ''./keep.log''
          [(''*.log'', False), (''keep.log'', True)] ''.'' = Inr False"
    using last_matching_rule_wins[OF g1 r1, of "[(''*.log'', False), (''keep.log'', True)]"]
    by (simp only: f1) simp
  moreover have "matches_gitignore_pattern ?os ''./other.log''
          [(''*.log'', False), (''keep.log'', True)] ''.'' = Inr True"
    using last_matching_rule_wins[OF g2 r2, of "[(''*.log'', False), (''keep.log'', True)]"]
    by (simp only: f2) simp
  moreover have "matches_gitignore_pattern ?os ''./keep.log'' [(''keep.log'', True)] ''.''
          = Inr False"
    using last_matching_rule_wins[OF g1 r1, of "[(''keep.log'', True)]"]
    by (simp only: f3) simp
  ultimately show ?thesis using g1 r1 by blast
qed

text \<open>
  Why the claim needs the two conditions: below a \<open>.git\<close> directory the only rule of
  the list, the negation \<open>!keep.log\<close>, matches the file \<open>keep.log\<close>, and the file is
  excluded all the same; and on the empty path \<open>os.path.relpath\<close> raises, so that
  nothing is returned.
\<close>

theorem last_matching_rule_counterexample:
  "rule_matches ''keep.log'' ''.git/keep.log'' ''keep.log'' \<and>
   matches_gitignore_pattern (posixpath ''/w'') ''./.git/keep.log'' [(''keep.log'', True)] ''.''
     = Inr True \<and>
   matches_gitignore_pattern (posixpath ''/w'') [] [] ''.''
     = Inl (ValueError ''no path specified'')"
  by code_simp

text \<open>
  Claim C4.  Whatever the rules (negations that would match \<open>.git\<close> among them) and
  whatever the root: a candidate path one of whose segments is \<open>.git\<close> is excluded.
\<close>

theorem git_segment_always_excluded:
  assumes "''.git'' \<in> set (str_split (sep os) filepath)"
  shows "matches_gitignore_pattern os filepath patterns root_dir = Inr True"
  using assms by (simp add: matches_gitignore_pattern_def)

theorem git_segment_always_excluded_witness:
  "''.git'' \<in> set (str_split (sep (posixpath ''/w'')) ''./.git/config'') \<and>
   matches_gitignore_pattern (posixpath ''/w'') ''./.git/config''
     [(''.git'', True), (''config'', True), (''*'', True)] ''.'' = Inr True"
proof -
  have h: "''.git'' \<in> set (str_split (sep (posixpath ''/w'')) ''./.git/config'')"
    by code_simp
  show ?thesis
    using h git_segment_always_excluded[OF h] by blast
qed

section \<open>Directory rules and rooted rules\<close>

lemma dotstar_skip: "rx_match b r s \<Longrightarrow> rx_match b (DotStar # r) s"
  by (cases s) auto

text \<open>A name matches the expression of the pattern that spells it.\<close>

lemma glob_self_match: "rx_match b (glob_rx X @ [Eol]) X"
proof (induction X arbitrary: b)
  case Nil
  show ?case by simp
next
  case (Cons c cs)
  have "rx_match False (DotStar # glob_rx cs @ [Eol]) cs"
    using Cons dotstar_skip by blast
  with Cons show ?case by (auto simp: newline_def)
qed

lemma compiled_dir_pattern:
  "compiled (P @ ''/'') =
     (if startswith P ''/'' then Bol # glob_rx (drop 1 P) @ [Eol]
      else Bol # DotStar # glob_rx P @ [Eol])"
  by (simp add: compiled_def endswith_def)

lemma compiled_dir_self_match:
  "rx_match True (compiled (P @ ''/'')) (if startswith P ''/'' then drop 1 P else P)"
  by (simp add: compiled_dir_pattern glob_self_match dotstar_skip)

text \<open>
  Claim C2, as the code has it.  Let the list hold the directory rule \<open>P/\<close>, not
  negated, and let \<open>X\<close> be \<open>P\<close> without the slash that anchors it to the root, if it
  has one.  A candidate whose root-relative path or whose bare name is \<open>X\<close> is excluded,
  provided that no negation rule after \<open>P/\<close> in the list matches the candidate.  Nothing
  is said of the paths below \<open>X\<close>: the rule excludes such a path only when its
  expression matches that path's own relative path or bare name.
\<close>

theorem dir_pattern_excludes_named_path:
  assumes rel: "relpath os filepath root_dir = Inr relative_filepath"
    and X: "X = (if startswith P ''/'' then drop 1 P else P)"
    and eq: "relative_filepath = X \<or> basename os filepath = X"
    and later: "\<forall>rule \<in> set later.
                  snd rule \<longrightarrow> \<not> rule_matches (fst rule) relative_filepath (basename os filepath)"
  shows "matches_gitignore_pattern os filepath (earlier @ (P @ ''/'', False) # later) root_dir
           = Inr True"
proof (cases "''.git'' \<in> set (str_split (sep os) filepath)")
  case True
  then show ?thesis by (simp add: matches_gitignore_pattern_def)
next
  case False
  let ?P = "\<lambda>rule. rule_matches (fst rule) relative_filepath (basename os filepath)"
  have m: "?P (P @ ''/'', False)"
    using eq X compiled_dir_self_match[of P] by (auto simp: rule_matches_compiled)
  have "\<exists>y. find ?P (rev (earlier @ (P @ ''/'', False) # later)) = Some y \<and> \<not> snd y"
    by (rule find_rev_decided[where Q = "\<lambda>y. \<not> snd y"]) (use m later in auto)
  then show ?thesis
    using False rel by (auto simp: matches_gitignore_pattern_def rule_loop_eq)
qed

theorem dir_pattern_excludes_named_path_witness:
  "relpath (posixpath ''/w'') ''./build'' ''.'' = Inr ''build'' \<and>
   \<not> rule_matches ''keep.log'' ''build'' (basename (posixpath ''/w'') ''./build'') \<and>
   matches_gitignore_pattern (posixpath ''/w'') ''./build''
     ([(''*.log'', False)] @ (''build'' @ ''/'', False) # [(''keep.log'', True)]) ''.'' = Inr True"
proof -
  let ?os = "posixpath ''/w''"
  have rel: "relpath ?os ''./build'' ''.'' = Inr ''build''" by code_simp
  have X: "''build'' = (if startswith ''build'' ''/'' then drop 1 ''build'' else ''build'')"
    by code_simp
  have eq: "''build'' = ''build'' \<or> basename ?os ''./build'' = ''build''" by simp
  have nm: "\<not> rule_matches ''keep.log'' ''build'' (basename ?os ''./build'')" by code_simp
  then have later: "\<forall>rule \<in> set [(''keep.log'', True)].
      snd rule \<longrightarrow> \<not> rule_matches (fst rule) ''build'' (basename ?os ''./build'')"
    by simp
  show ?thesis
    using rel nm
      dir_pattern_excludes_named_path[OF rel X eq later, of "[(''*.log'', False)]"]
    by blast
qed

text \<open>
  Under the single rule \<open>build/\<close> a file below \<open>build\<close> is not excluded by the
  matcher; and \<open>build\<close> itself is not excluded when a later rule negates it.
\<close>

theorem dir_pattern_counterexample:
  "matches_gitignore_pattern (posixpath ''/w'') ''./build/main.py'' [(''build/'', False)] ''.''
     = Inr False \<and>
   matches_gitignore_pattern (posixpath ''/w'') ''./build''
     [(''build/'', False), (''build'', True)] ''.'' = Inr False"
  by code_simp






section \<open>The entries of the rules file\<close>

lemma parse_lines_eq:
  "parse_lines ls acc = acc @ map entry_of (filter kept_line (map str_strip ls))"
  by (induction ls arbitrary: acc) (simp_all add: Let_def kept_line_def entry_of_def)

text \<open>
  Claim C7.  Without a rules file the result is the empty list.  With a rules file whose
  lines are \<open>ls\<close>, the result has, in the order of the file, one entry for each line
  that, once stripped, is not empty and does not start with \<open>#\<close>: the stripped line
  without its \<open>!\<close> and the flag \<open>True\<close> when it starts with \<open>!\<close>, the stripped line
  and the flag \<open>False\<close> otherwise.
\<close>

theorem parse_gitignore_entries:
  "(\<not> path_exists fs gitignore_path \<longrightarrow> parse_gitignore fs gitignore_path = Inr []) \<and>
   (path_exists fs gitignore_path \<longrightarrow> read_lines fs gitignore_path = Inr ls \<longrightarrow>
      parse_gitignore fs gitignore_path =
        Inr (map entry_of (filter kept_line (map str_strip ls))))"
  by (simp add: parse_gitignore_def parse_lines_eq)

theorem parse_gitignore_entries_witness:
  "parse_gitignore (project_with_rules [''# build output'' @ [newline], ''  dist/ '' @ [newline],
                                         [newline], ''*.log'' @ [newline], ''!keep.log''])
       ''./.gitignore''
     = Inr [(''dist/'', False), (''*.log'', False), (''keep.log'', True)] \<and>
   parse_gitignore (project_with_rules []) ''elsewhere/.gitignore'' = Inr []"
proof -
  let ?ls = "[''# build output'' @ [newline], ''  dist/ '' @ [newline], [newline],
              ''*.log'' @ [newline], ''!keep.log'']"
  have e: "path_exists (project_with_rules ?ls) ''./.gitignore''"
    by (simp add: path_exists_def project_with_rules_def)
  have r: "read_lines (project_with_rules ?ls) ''./.gitignore'' = Inr ?ls"
    by (simp add: project_with_rules_def)
  have n: "\<not> path_exists (project_with_rules []) ''elsewhere/.gitignore''"
    by (simp add: path_exists_def project_with_rules_def)
  have v: "map entry_of (filter kept_line (map str_strip ?ls))
             = [(''dist/'', False), (''*.log'', False), (''keep.log'', True)]"
    by code_simp
  show ?thesis
    using parse_gitignore_entries[of "project_with_rules ?ls" "''./.gitignore''" ?ls]
      parse_gitignore_entries[of "project_with_rules []" "''elsewhere/.gitignore''" "[]"] e r n
    by (simp only: v) simp
qed

section \<open>The line of the root in tree mode\<close>

text \<open>
  The guard before the line of a directory never skips the root; and a directory that
  the walk goes into is one that the matcher did not exclude when \<open>dirnames\<close> was
  pruned, so that the guard does not skip it either.
\<close>

lemma root_line_never_skipped:
  "dir_lines os patterns root_dir root_dir filenames =
     seq_out ([replicate (4 * str_count (sep os) (str_replace root_dir [] root_dir)) CHR '' ''
               @ basename os root_dir @ ''/'' @ [newline]], None)
       (file_lines os patterns root_dir root_dir
          (replicate (4 * (str_count (sep os) (str_replace root_dir [] root_dir) + 1)) CHR '' '')
          filenames)"
  by (simp add: dir_lines_def Let_def)

lemma kept_dirs_not_excluded:
  "filter_dirs os patterns root_dir dirpath ds = Inr kept \<Longrightarrow> d \<in> set kept \<Longrightarrow>
   matches_gitignore_pattern os (join os dirpath (fst d)) patterns root_dir = Inr False"
  by (induction ds arbitrary: kept) (auto split: sum.splits if_splits)

text \<open>
  Claim C3.  The code does not skip the line of the root.  With the root \<open>.\<close> and the
  rule \<open>.*\<close> the matcher excludes the root, and the line \<open>./\<close> of the root is
  written all the same, before the lines of the children that are not excluded.
\<close>

theorem root_line_written_although_excluded:
  "matches_gitignore_pattern (posixpath ''/w'') ''.'' [(''.*'', False)] ''.'' = Inr True \<and>
   generate_project_structure_doc (posixpath ''/w'') (project_with_rules [''.*'' @ [newline]]) ''.''
       ''project_structure.txt'' =
     ([''Project Structure for: .'' @ [newline],
       ''=============================='' @ [newline, newline],
       ''./'' @ [newline],
       ''    Makefile'' @ [newline],
       ''    src/'' @ [newline],
       ''        app'' @ [newline]], None)"
  by code_simp

section \<open>The missing source directory\<close>

lemma startswith_append_same: "startswith (p @ s) p"
  by (simp add: startswith_def)

lemma py_print_ascii: "list_all isascii message \<Longrightarrow> py_print os message = None"
  by (simp add: py_print_def list_all_iff)

text \<open>
  Claim C5.  When the source directory does not exist, \<open>concatenate_typescript_files\<close>
  returns the message that starts with \<open>Error:\<close> without having opened a file, and
  the main program (whose source directory is \<open>src\<close>) prints the message and writes
  no file.
\<close>

theorem missing_directory_reported:
  assumes "\<not> path_exists fs directory_path"
  shows "concatenate_typescript_files os fs directory_path =
           Inr (''Error: Directory '' @ [CHR 0x27] @ directory_path @ [CHR 0x27] @ '' not found.'',
                initial_state) \<and>
         startswith (''Error: Directory '' @ [CHR 0x27] @ directory_path @ [CHR 0x27] @ '' not found.'')
           ''Error:'' \<and>
         opened initial_state = [] \<and>
         (directory_path = ''src'' \<longrightarrow>
            main os fs =
              \<lparr> stdout = [''Concatenating TypeScript files from: src'',
                           ''Error: Directory '' @ [CHR 0x27] @ ''src'' @ [CHR 0x27] @ '' not found.''],
                written = [], raised = None \<rparr>)"
proof -
  have nd: "\<not> path_isdir fs directory_path"
    using assms by (simp add: path_exists_def path_isdir_def)
  have sw: "startswith (''Error: Directory '' @ [CHR 0x27] @ d @ [CHR 0x27] @ '' not found.'')
              ''Error:''" for d
    using startswith_append_same[of "''Error:''"] by simp
  have banner: "py_print os ''Concatenating TypeScript files from: src'' = None"
    by (rule py_print_ascii) (simp add: isascii_def)
  have message: "py_print os (''Error: Directory '' @ [CHR 0x27] @ ''src'' @ [CHR 0x27]
                              @ '' not found.'') = None"
    by (rule py_print_ascii) (simp add: isascii_def)
  show ?thesis
    using nd sw[of "''src''"] sw[of directory_path] banner message
    by (auto simp: concatenate_typescript_files_def main_def say_def initial_state_def)
qed

theorem missing_directory_reported_witness:
  "\<not> path_exists sample_project ''lib'' \<and>
   concatenate_typescript_files (posixpath ''/w'') sample_project ''lib'' =
     Inr (''Error: Directory '' @ [CHR 0x27] @ ''lib'' @ [CHR 0x27] @ '' not found.'', initial_state) \<and>
   written (main (posixpath ''/w'') (sample_project\<lparr>stat := (\<lambda>p. None)\<rparr>)) = []"
proof -
  have a: "\<not> path_exists sample_project ''lib''"
    by (simp add: path_exists_def sample_project_def)
  have b: "\<not> path_exists (sample_project\<lparr>stat := (\<lambda>p. None)\<rparr>) ''src''"
    by (simp add: path_exists_def)
  show ?thesis
    using a missing_directory_reported[OF a, of "posixpath ''/w''"]
      missing_directory_reported[OF b, of "posixpath ''/w''"]
    by simp
qed

section \<open>Files that cannot be read\<close>










section \<open>The separators of the path in the comment\<close>




section \<open>Two runs on the same directory\<close>

lemma for_each_agree:
  "(\<And>x st. x \<in> set xs \<Longrightarrow> f st x = g st x) \<Longrightarrow> for_each f xs st = for_each g xs st"
  by (induction xs arbitrary: st) (auto split: sum.splits)

lemma visit_file_agree:
  assumes "endswith f ''.ts'' \<Longrightarrow> read_text fs1 (join os root f) = read_text fs2 (join os root f)"
  shows "visit_file os fs1 d root st f = visit_file os fs2 d root st f"
  using assms
  by (cases "endswith f ''.ts''"; cases "relpath os (join os root f) d")
     (simp_all add: visit_file_def Let_def)

text \<open>
  Claim C9.  The result of \<open>concatenate_typescript_files\<close> depends on the state of the
  directory only: two file systems that agree on the kind of the source directory, on
  the traversal and on what reading each \<open>.ts\<close> file of the traversal gives lead to
  the same result, hence to the same string; and the main program then writes the same
  file, if it can open it in both.
\<close>

theorem concatenation_deterministic:
  assumes st: "stat fs1 directory_path = stat fs2 directory_path"
    and sc: "scandir fs1 directory_path = scandir fs2 directory_path"
    and rd: "\<forall>p \<in> set (ts_paths os fs1 directory_path). read_text fs1 p = read_text fs2 p"
  shows "concatenate_typescript_files os fs1 directory_path
           = concatenate_typescript_files os fs2 directory_path \<and>
         (directory_path = ''src'' \<longrightarrow>
          open_for_write fs1 ''full_project_source.ts'' = open_for_write fs2 ''full_project_source.ts'' \<longrightarrow>
          main os fs1 = main os fs2)"
proof -
  have w: "os_walk os fs1 directory_path = os_walk os fs2 directory_path"
    using sc by (simp add: os_walk_def)
  have d: "path_isdir fs1 directory_path = path_isdir fs2 directory_path"
    using st by (simp add: path_isdir_def)
  have inner: "for_each (visit_file os fs1 directory_path root) file_names s
             = for_each (visit_file os fs2 directory_path root) file_names s"
    if "(root, dirs, file_names) \<in> set (os_walk os fs1 directory_path)"
    for root dirs file_names s
  proof (rule for_each_agree)
    fix f s'
    assume f: "f \<in> set file_names"
    show "visit_file os fs1 directory_path root s' f = visit_file os fs2 directory_path root s' f"
    proof (rule visit_file_agree)
      assume "endswith f ''.ts''"
      with f that have "join os root f \<in> set (ts_paths os fs1 directory_path)"
        by (force simp: ts_paths_def)
      with rd show "read_text fs1 (join os root f) = read_text fs2 (join os root f)"
        by blast
    qed
  qed
  have outer:
    "for_each (\<lambda>st (root, dirs, file_names).
          for_each (visit_file os fs1 directory_path root) file_names st)
        (os_walk os fs1 directory_path) initial_state
     = for_each (\<lambda>st (root, dirs, file_names).
          for_each (visit_file os fs2 directory_path root) file_names st)
        (os_walk os fs1 directory_path) initial_state"
    by (rule for_each_agree) (use inner in auto)
  have c: "concatenate_typescript_files os fs1 directory_path
           = concatenate_typescript_files os fs2 directory_path"
    using outer w d by (simp add: concatenate_typescript_files_def)
  have "main os fs1 = main os fs2"
    if "directory_path = ''src''"
      and "open_for_write fs1 ''full_project_source.ts'' = open_for_write fs2 ''full_project_source.ts''"
  proof -
    from c that(1) have "concatenate_typescript_files os fs1 ''src''
                          = concatenate_typescript_files os fs2 ''src''"
      by simp
    with that(2) show ?thesis
      by (simp add: main_def Let_def split: sum.splits prod.splits)
  qed
  with c show ?thesis by blast
qed

text \<open>
  Two file systems that differ in a file that is not a \<open>.ts\<close> file and in the rules
  file.
\<close>

theorem concatenation_deterministic_witness:
  "read_text sample_project ''src/notes.txt''
     \<noteq> read_text (sample_project\<lparr>read_text := (\<lambda>p. if p = ''src/notes.txt'' then Inr ''edited''
                                                    else read_text sample_project p),
                                    read_lines := (\<lambda>p. Inr [])\<rparr>) ''src/notes.txt'' \<and>
   concatenate_typescript_files (posixpath ''/w'') sample_project ''src''
     = concatenate_typescript_files (posixpath ''/w'')
         (sample_project\<lparr>read_text := (\<lambda>p. if p = ''src/notes.txt'' then Inr ''edited''
                                             else read_text sample_project p),
                          read_lines := (\<lambda>p. Inr [])\<rparr>) ''src'' \<and>
   main (posixpath ''/w'') sample_project
     = main (posixpath ''/w'')
         (sample_project\<lparr>read_text := (\<lambda>p. if p = ''src/notes.txt'' then Inr ''edited''
                                             else read_text sample_project p),
                          read_lines := (\<lambda>p. Inr [])\<rparr>)"
proof -
  let ?os = "posixpath ''/w''"
  let ?fs2 = "sample_project\<lparr>read_text := (\<lambda>p. if p = ''src/notes.txt'' then Inr ''edited''
                                                else read_text sample_project p),
                             read_lines := (\<lambda>p. Inr [])\<rparr>"
  have ne: "read_text sample_project ''src/notes.txt'' \<noteq> read_text ?fs2 ''src/notes.txt''"
    by (simp add: sample_project_def)
  have st: "stat sample_project ''src'' = stat ?fs2 ''src''" by simp
  have sc: "scandir sample_project ''src'' = scandir ?fs2 ''src''" by simp
  have p: "ts_paths ?os sample_project ''src''
             = [''src/broken.ts'', ''src/main.ts'', ''src/a/x.ts'']"
    by code_simp
  have rd: "\<forall>p \<in> set (ts_paths ?os sample_project ''src'').
              read_text sample_project p = read_text ?fs2 p"
    by (simp only: p) simp
  have ow: "open_for_write sample_project ''full_project_source.ts''
              = open_for_write ?fs2 ''full_project_source.ts''"
    by simp
  show ?thesis
    using ne ow concatenation_deterministic[OF st sc rd] by blast
qed

end
